theory Spec2Isabelle
  imports Main
begin

section \<open>Values of the host language\<close>

text \<open>
  The classifier of \<^verbatim>\<open>src/errorStatus.ts\<close> receives
  \<^verbatim>\<open>Ref<Error | string | number | null | undefined>\<close>. A number is kept as an integer
  where it is one (its \<^verbatim>\<open>toString()\<close> is then the decimal numeral, for magnitudes
  below \<open>10^21\<close>), as \<open>NaN\<close>, or, for every other number (a fraction, an infinity, an
  integer printed with an exponent), as the text its \<^verbatim>\<open>toString()\<close> gives: such a number
  is truthy and is equal to no integer.
\<close>

datatype number = Integer int | NaN | OtherNumber string

datatype ErrorValue =
    Null
  | Undefined
  | Str string
  | Num number
  | Err string \<comment> \<open>an \<^verbatim>\<open>Error\<close> object, with its \<^verbatim>\<open>message\<close>\<close>
  | Other \<comment> \<open>a truthy value outside the declared union: the final \<^verbatim>\<open>else\<close>\<close>

datatype 'a Ref = Ref (val: 'a)

text \<open>A thrown value, with the \<^verbatim>\<open>message\<close> property the handler reads from it.\<close>

datatype fault = Thrown (fault_message: "string option")

type_synonym translate = "string \<Rightarrow> fault + string"

type_synonym CustomError = "ErrorValue \<Rightarrow> fault + string option"

record ErrorStatusOptions =
  debug :: "bool option"
  serverOnly :: "bool option"

text \<open>
  What \<^verbatim>\<open>isServer\<close> reads of its surroundings: the global \<^verbatim>\<open>process\<close> (absent or
  falsy: \<open>None\<close>) with its property \<^verbatim>\<open>server\<close> (not in the object: \<open>None\<close>; otherwise
  whether it is strictly \<^verbatim>\<open>true\<close>), and whether a global \<^verbatim>\<open>window\<close> is defined.
\<close>

record process_global =
  server :: "bool option"

record environment =
  process :: "process_global option"
  window_defined :: bool

text \<open>
  What an evaluation does besides returning: the console lines it writes and the calls
  it makes to the two functions it was given, in order.
\<close>

datatype event =
    ConsoleWarn string
  | ConsoleError "string option"
  | CallT string
  | CallCustom ErrorValue

type_synonym 'a outcome = "event list \<times> (fault + 'a)"

section \<open>Strings\<close>

text \<open>
  A string is a list of characters. The strings of the source are sequences of UTF-16
  code units and \<^verbatim>\<open>includes\<close> compares them unit by unit, as the functions below
  compare characters.
\<close>

fun starts_with :: "string \<Rightarrow> string \<Rightarrow> bool" where
  "starts_with s [] = True"
| "starts_with [] (c # cs) = False"
| "starts_with (x # xs) (c # cs) = (x = c \<and> starts_with xs cs)"

text \<open>\<^verbatim>\<open>String.prototype.includes\<close>: the second string occurs in the first.\<close>

fun str_includes :: "string \<Rightarrow> string \<Rightarrow> bool" where
  "str_includes [] sub = starts_with [] sub"
| "str_includes (x # xs) sub = (starts_with (x # xs) sub \<or> str_includes xs sub)"

definition digit_char :: "nat \<Rightarrow> char" where
  "digit_char d = ''0123456789'' ! d"

fun digits :: "nat \<Rightarrow> string" where
  "digits n = (if n < 10 then [digit_char n] else digits (n div 10) @ [digit_char (n mod 10)])"

declare digits.simps [simp del]

definition int_toString :: "int \<Rightarrow> string" where
  "int_toString i = (if i < 0 then CHR ''-'' # digits (nat (- i)) else digits (nat i))"

fun num_toString :: "number \<Rightarrow> string" where
  "num_toString (Integer i) = int_toString i"
| "num_toString NaN = ''NaN''"
| "num_toString (OtherNumber s) = s"

section \<open>The logging gate\<close>

definition isServer :: "environment \<Rightarrow> bool" where
  "isServer env =
     ((case process env of
         None \<Rightarrow> False
       | Some p \<Rightarrow> (case server p of None \<Rightarrow> False | Some b \<Rightarrow> b))
      \<or> \<not> window_defined env)"

definition logOption :: "environment \<Rightarrow> ErrorStatusOptions option \<Rightarrow> bool" where
  "logOption env options =
     (case options of
        None \<Rightarrow> False
      | Some opts \<Rightarrow>
          if debug opts \<noteq> Some True then False
          else if serverOnly opts \<noteq> Some True then True
          else isServer env)"

section \<open>The classifier\<close>

fun truthy :: "ErrorValue \<Rightarrow> bool" where
  "truthy Null = False"
| "truthy Undefined = False"
| "truthy (Str s) = (s \<noteq> [])"
| "truthy (Num (Integer i)) = (i \<noteq> 0)"
| "truthy (Num NaN) = False"
| "truthy (Num (OtherNumber s)) = True"
| "truthy (Err m) = True"
| "truthy Other = True"

definition httpStatusCodes :: "int list" where
  "httpStatusCodes = [400, 401, 403, 404, 408, 429, 500, 502, 503, 504]"

fun errorMessage_of :: "ErrorValue \<Rightarrow> string" where
  "errorMessage_of (Str s) = s"
| "errorMessage_of (Err m) = m"
| "errorMessage_of (Num n) = num_toString n"
| "errorMessage_of v = []"

text \<open>\<^verbatim>\<open>typeof error.value === "number" && httpStatusCodes.includes(error.value)\<close>\<close>

fun is_listed_number :: "ErrorValue \<Rightarrow> bool" where
  "is_listed_number (Num (Integer i)) = (i \<in> set httpStatusCodes)"
| "is_listed_number v = False"

text \<open>The \<^verbatim>\<open>for (const code of httpStatusCodes)\<close> loop, leaving at the first hit.\<close>

fun scan_codes :: "string \<Rightarrow> int list \<Rightarrow> int option" where
  "scan_codes errorMessage [] = None"
| "scan_codes errorMessage (code # codes) =
     (if str_includes errorMessage (int_toString code) then Some code
      else scan_codes errorMessage codes)"

text \<open>A call of \<^verbatim>\<open>t\<close>; calling what is not there throws.\<close>

definition call_t :: "translate option \<Rightarrow> string \<Rightarrow> string outcome" where
  "call_t t key =
     (case t of
        None \<Rightarrow> ([], Inl (Thrown (Some ''t is not a function'')))
      | Some f \<Rightarrow> ([CallT key], f key))"

definition after :: "event list \<Rightarrow> 'a outcome \<Rightarrow> 'a outcome" where
  "after evs r = (evs @ fst r, snd r)"

text \<open>Lines 50 to 97: the chain on the held value, and the default after it.\<close>

definition classify ::
  "translate option \<Rightarrow> CustomError option \<Rightarrow> ErrorValue \<Rightarrow> string outcome" where
  "classify t customError v =
     (if truthy v then
        (let errorMessage = errorMessage_of v in
         if str_includes errorMessage ''aborted'' then call_t t ''errStatus.abortError''
         else if str_includes errorMessage ''timeout'' then call_t t ''errStatus.408''
         else if is_listed_number v then call_t t (''errStatus.'' @ errorMessage_of v)
         else
           (case scan_codes errorMessage httpStatusCodes of
              Some code \<Rightarrow> call_t t (''errStatus.'' @ int_toString code)
            | None \<Rightarrow>
                (case customError of
                   None \<Rightarrow> call_t t ''errStatus.defaultStatusError''
                 | Some c \<Rightarrow>
                     (case c v of
                        Inl e \<Rightarrow> ([CallCustom v], Inl e)
                      | Inr None \<Rightarrow>
                          after [CallCustom v] (call_t t ''errStatus.defaultStatusError'')
                      | Inr (Some customMessage) \<Rightarrow>
                          if customMessage \<noteq> [] then ([CallCustom v], Inr customMessage)
                          else after [CallCustom v]
                                 (call_t t ''errStatus.defaultStatusError'')))))
      else call_t t ''errStatus.defaultStatusError'')"

text \<open>Lines 41 to 47: the guard on the two required parameters.\<close>

definition missing_parameters ::
  "environment \<Rightarrow> translate option \<Rightarrow> ErrorStatusOptions option \<Rightarrow> string outcome" where
  "missing_parameters env t options =
     after (if logOption env options
            then [ConsoleWarn ''errorStatus: Missing required parameters.''] else [])
       (call_t t ''errStatus.missingParameters'')"

text \<open>The body of the \<^verbatim>\<open>try\<close>.\<close>

definition try_block ::
  "environment \<Rightarrow> ErrorValue Ref option \<Rightarrow> translate option \<Rightarrow> CustomError option \<Rightarrow>
   ErrorStatusOptions option \<Rightarrow> string outcome" where
  "try_block env error t customError options =
     (case error of
        None \<Rightarrow> missing_parameters env t options
      | Some r \<Rightarrow>
          (case t of
             None \<Rightarrow> missing_parameters env t options
           | Some f \<Rightarrow> classify t customError (val r)))"

text \<open>
  One evaluation of the computed value: the \<^verbatim>\<open>try\<close> and its \<^verbatim>\<open>catch\<close>. A fault of
  the handler itself is the fault of the evaluation.
\<close>

definition errorStatus ::
  "environment \<Rightarrow> ErrorValue Ref option \<Rightarrow> translate option \<Rightarrow> CustomError option \<Rightarrow>
   ErrorStatusOptions option \<Rightarrow> string outcome" where
  "errorStatus env error t customError options =
     (case try_block env error t customError options of
        (evs, Inr s) \<Rightarrow> (evs, Inr s)
      | (evs, Inl e) \<Rightarrow>
          after (evs @ (if logOption env options
                        then [ConsoleError (fault_message e)] else []))
            (call_t t ''errStatus.unexpectedError''))"

section \<open>Sample arguments\<close>

text \<open>
  A translation that returns its key, one that throws at every call, one that throws at
  every key but that of the handler; the custom classifier of the README and one with
  the same answer for every value; a browser and a server.
\<close>

definition echo_t :: translate where
  "echo_t key = Inr key"

definition failing_t :: translate where
  "failing_t key = Inl (Thrown (Some ''translation failed''))"

definition rescue_t :: translate where
  "rescue_t key =
     (if key = ''errStatus.unexpectedError'' then Inr key
      else Inl (Thrown (Some ''translation failed'')))"

definition readme_customError :: CustomError where
  "readme_customError err =
     (if truthy err then
        (case err of
           Err m \<Rightarrow>
             Inr (if str_includes m ''Custom'' then Some ''This is a custom error'' else None)
         | _ \<Rightarrow> Inl (Thrown (Some ''err.message is undefined'')))
      else Inr None)"

definition constant_customError :: CustomError where
  "constant_customError err = Inr (Some ''custom message'')"

definition client_env :: environment where
  "client_env = \<lparr>process = None, window_defined = True\<rparr>"

definition server_env :: environment where
  "server_env = \<lparr>process = Some \<lparr>server = Some True\<rparr>, window_defined = False\<rparr>"

section \<open>Facts about the parts\<close>

lemma starts_with_iff: "starts_with s p \<longleftrightarrow> (\<exists>q. s = p @ q)"
  by (induction s p rule: starts_with.induct) auto

lemma starts_with_refl: "starts_with s s"
  by (simp add: starts_with_iff)

lemma str_includes_iff: "str_includes s sub \<longleftrightarrow> (\<exists>p q. s = p @ sub @ q)"
proof (induction s)
  case Nil
  show ?case by (cases sub) auto
next
  case (Cons x xs)
  show ?case
  proof
    assume "str_includes (x # xs) sub"
    then consider "starts_with (x # xs) sub" | "str_includes xs sub" by auto
    then show "\<exists>p q. x # xs = p @ sub @ q"
    proof cases
      case 1
      then obtain q where "x # xs = sub @ q" by (auto simp: starts_with_iff)
      then have "x # xs = [] @ sub @ q" by simp
      then show ?thesis by blast
    next
      case 2
      then obtain p q where "xs = p @ sub @ q" using Cons.IH by blast
      then have "x # xs = (x # p) @ sub @ q" by simp
      then show ?thesis by blast
    qed
  next
    assume "\<exists>p q. x # xs = p @ sub @ q"
    then obtain p q where pq: "x # xs = p @ sub @ q" by blast
    show "str_includes (x # xs) sub"
    proof (cases p)
      case Nil
      with pq have "starts_with (x # xs) sub" by (auto simp: starts_with_iff)
      then show ?thesis by simp
    next
      case (Cons y ys)
      with pq have "xs = ys @ sub @ q" by simp
      then have "str_includes xs sub" using Cons.IH by blast
      then show ?thesis by simp
    qed
  qed
qed

lemma str_includes_refl: "str_includes s s"
  by (cases s) (simp_all add: starts_with_refl)

lemma str_includes_empty: "str_includes [] sub \<longleftrightarrow> sub = []"
  by (cases sub) simp_all

lemma int_toString_codes:
  "int_toString 400 = ''400''" "int_toString 401 = ''401''" "int_toString 403 = ''403''"
  "int_toString 404 = ''404''" "int_toString 408 = ''408''" "int_toString 429 = ''429''"
  "int_toString 500 = ''500''" "int_toString 502 = ''502''" "int_toString 503 = ''503''"
  "int_toString 504 = ''504''"
  by (simp_all add: int_toString_def digits.simps digit_char_def)

lemma int_toString_not_empty: "int_toString i \<noteq> []"
  by (simp add: int_toString_def digits.simps [of "nat i"])

lemma scan_codes_Some:
  "scan_codes m cs = Some c \<longleftrightarrow>
     (\<exists>i < length cs. cs ! i = c \<and> str_includes m (int_toString c) \<and>
        (\<forall>c' \<in> set (take i cs). \<not> str_includes m (int_toString c')))"
proof (induction cs)
  case Nil
  show ?case by simp
next
  case (Cons a cs)
  show ?case
  proof (cases "str_includes m (int_toString a)")
    case True
    have "(\<exists>i < length (a # cs). (a # cs) ! i = c \<and> str_includes m (int_toString c) \<and>
        (\<forall>c' \<in> set (take i (a # cs)). \<not> str_includes m (int_toString c'))) \<longleftrightarrow> a = c"
    proof
      assume "\<exists>i < length (a # cs). (a # cs) ! i = c \<and> str_includes m (int_toString c) \<and>
        (\<forall>c' \<in> set (take i (a # cs)). \<not> str_includes m (int_toString c'))"
      then obtain i where i: "i < length (a # cs)" "(a # cs) ! i = c"
        "\<forall>c' \<in> set (take i (a # cs)). \<not> str_includes m (int_toString c')" by blast
      show "a = c"
      proof (cases i)
        case 0 with i show ?thesis by simp
      next
        case (Suc k) with i True show ?thesis by simp
      qed
    next
      assume "a = c"
      with True have "0 < length (a # cs) \<and> (a # cs) ! 0 = c \<and> str_includes m (int_toString c) \<and>
        (\<forall>c' \<in> set (take 0 (a # cs)). \<not> str_includes m (int_toString c'))" by simp
      then show "\<exists>i < length (a # cs). (a # cs) ! i = c \<and> str_includes m (int_toString c) \<and>
        (\<forall>c' \<in> set (take i (a # cs)). \<not> str_includes m (int_toString c'))" by blast
    qed
    with True show ?thesis by auto
  next
    case False
    have "(\<exists>i < length (a # cs). (a # cs) ! i = c \<and> str_includes m (int_toString c) \<and>
        (\<forall>c' \<in> set (take i (a # cs)). \<not> str_includes m (int_toString c'))) \<longleftrightarrow>
      (\<exists>i < length cs. cs ! i = c \<and> str_includes m (int_toString c) \<and>
        (\<forall>c' \<in> set (take i cs). \<not> str_includes m (int_toString c')))" (is "?L \<longleftrightarrow> ?R")
    proof
      assume ?L
      then obtain i where i: "i < length (a # cs)" "(a # cs) ! i = c"
        "str_includes m (int_toString c)"
        "\<forall>c' \<in> set (take i (a # cs)). \<not> str_includes m (int_toString c')" by blast
      show ?R
      proof (cases i)
        case 0 with i False show ?thesis by simp
      next
        case (Suc k)
        with i have "k < length cs \<and> cs ! k = c \<and> str_includes m (int_toString c) \<and>
          (\<forall>c' \<in> set (take k cs). \<not> str_includes m (int_toString c'))" by simp
        then show ?thesis by blast
      qed
    next
      assume ?R
      then obtain k where k: "k < length cs" "cs ! k = c" "str_includes m (int_toString c)"
        "\<forall>c' \<in> set (take k cs). \<not> str_includes m (int_toString c')" by blast
      with False have "Suc k < length (a # cs) \<and> (a # cs) ! Suc k = c \<and>
        str_includes m (int_toString c) \<and>
        (\<forall>c' \<in> set (take (Suc k) (a # cs)). \<not> str_includes m (int_toString c'))" by simp
      then show ?L by blast
    qed
    with False Cons.IH show ?thesis by simp
  qed
qed

lemma scan_codes_None:
  "scan_codes m cs = None \<longleftrightarrow> (\<forall>c \<in> set cs. \<not> str_includes m (int_toString c))"
  by (induction cs) auto

lemma is_listed_number_includes:
  "is_listed_number v \<Longrightarrow>
     \<exists>c \<in> set httpStatusCodes. str_includes (errorMessage_of v) (int_toString c)"
  by (induction v rule: is_listed_number.induct) (auto intro: str_includes_refl)

lemma falsy_iff:
  "\<not> truthy v \<longleftrightarrow> v \<in> {Null, Undefined, Str [], Num (Integer 0), Num NaN}"
  by (induction v rule: truthy.induct) auto


section \<open>The claims\<close>

lemmas errorStatus_unfold = errorStatus_def try_block_def classify_def call_t_def after_def
  missing_parameters_def

text \<open>
  Claim C1, as it is written, says that no evaluation raises, and that a translate
  function that faults at every call still gives the \<open>unexpectedError\<close> message. The
  handler of the \<^verbatim>\<open>catch\<close> calls \<^verbatim>\<open>t\<close> itself: with such a function the fault of
  that call leaves the evaluation.
\<close>

theorem errorStatus_raises_when_translate_always_faults:
  "snd (errorStatus client_env (Some (Ref (Str ''Request aborted''))) (Some failing_t) None None)
     = Inl (Thrown (Some ''translation failed''))"
  by (simp add: errorStatus_unfold failing_t_def logOption_def)

lemma errorStatus_outcome:
  "snd (errorStatus env error t customError options) =
     (case snd (try_block env error t customError options) of
        Inr s \<Rightarrow> Inr s
      | Inl e \<Rightarrow> snd (call_t t ''errStatus.unexpectedError''))"
  by (cases "try_block env error t customError options")
     (simp add: errorStatus_def after_def split: sum.splits)

text \<open>
  Claim C1, amended: when the translate function is present and returns for the key
  \<open>errStatus.unexpectedError\<close>, the evaluation returns a string whatever the other
  arguments are, and whenever the body of the \<^verbatim>\<open>try\<close> faults (the translate function at
  another key, the custom classifier), the result is that translation.
\<close>

theorem errorStatus_caught_when_handler_key_translates:
  assumes "f ''errStatus.unexpectedError'' = Inr u"
  shows "(\<exists>s. snd (errorStatus env error (Some f) customError options) = Inr s) \<and>
         (\<forall>e. snd (try_block env error (Some f) customError options) = Inl e \<longrightarrow>
              snd (errorStatus env error (Some f) customError options) = Inr u)"
  using assms by (simp add: errorStatus_outcome call_t_def split: sum.splits)

theorem errorStatus_caught_when_handler_key_translates_witness:
  "rescue_t ''errStatus.unexpectedError'' = Inr ''errStatus.unexpectedError'' \<and>
   snd (try_block client_env (Some (Ref (Str ''Request aborted''))) (Some rescue_t)
          (Some readme_customError) None) = Inl (Thrown (Some ''translation failed'')) \<and>
   snd (errorStatus client_env (Some (Ref (Str ''Request aborted''))) (Some rescue_t)
          (Some readme_customError) None) = Inr ''errStatus.unexpectedError''"
proof -
  have h: "rescue_t ''errStatus.unexpectedError'' = Inr ''errStatus.unexpectedError''"
    by (simp add: rescue_t_def)
  have b: "snd (try_block client_env (Some (Ref (Str ''Request aborted''))) (Some rescue_t)
          (Some readme_customError) None) = Inl (Thrown (Some ''translation failed''))"
    by (simp add: try_block_def classify_def call_t_def rescue_t_def)
  from errorStatus_caught_when_handler_key_translates [where f = rescue_t and u = "''errStatus.unexpectedError''"
      and env = client_env and error = "Some (Ref (Str ''Request aborted''))"
      and customError = "Some readme_customError" and options = None] h b
  show ?thesis by simp
qed

text \<open>
  Claim C2: with no error holder and a translate function that is present, the result is
  the translation of \<open>errStatus.missingParameters\<close>; the evaluation writes at most the
  warning and makes this one call, so nothing is classified.
\<close>

theorem errorStatus_missing_holder:
  assumes "f ''errStatus.missingParameters'' = Inr s"
  shows "errorStatus env None (Some f) customError options =
           ((if logOption env options
             then [ConsoleWarn ''errorStatus: Missing required parameters.''] else [])
            @ [CallT ''errStatus.missingParameters''], Inr s)"
  using assms by (simp add: errorStatus_unfold)

theorem errorStatus_missing_holder_witness:
  "echo_t ''errStatus.missingParameters'' = Inr ''errStatus.missingParameters'' \<and>
   errorStatus server_env None (Some echo_t) (Some constant_customError)
       (Some \<lparr>debug = Some True, serverOnly = Some True\<rparr>) =
     ([ConsoleWarn ''errorStatus: Missing required parameters.'',
       CallT ''errStatus.missingParameters''], Inr ''errStatus.missingParameters'')"
proof -
  have h: "echo_t ''errStatus.missingParameters'' = Inr ''errStatus.missingParameters''"
    by (simp add: echo_t_def)
  have l: "logOption server_env (Some \<lparr>debug = Some True, serverOnly = Some True\<rparr>)"
    by (simp add: logOption_def isServer_def server_env_def)
  from errorStatus_missing_holder [where f = echo_t and s = "''errStatus.missingParameters''"
      and env = server_env and customError = "Some constant_customError"
      and options = "Some \<lparr>debug = Some True, serverOnly = Some True\<rparr>"] h l
  show ?thesis by simp
qed

text \<open>
  Claim C3: for a string holding the decimal form of a listed code and neither
  \<open>aborted\<close> nor \<open>timeout\<close>, the result is the translation of \<open>errStatus.<code>\<close> for
  the first code of the list, in its order, whose decimal form occurs in the string.
\<close>

theorem errorStatus_string_first_listed_code:
  assumes "\<not> str_includes s ''aborted''" and "\<not> str_includes s ''timeout''"
    and "i < length httpStatusCodes"
    and "str_includes s (int_toString (httpStatusCodes ! i))"
    and "\<forall>c \<in> set (take i httpStatusCodes). \<not> str_includes s (int_toString c)"
    and "f (''errStatus.'' @ int_toString (httpStatusCodes ! i)) = Inr r"
  shows "errorStatus env (Some (Ref (Str s))) (Some f) customError options =
           ([CallT (''errStatus.'' @ int_toString (httpStatusCodes ! i))], Inr r)"
proof -
  have "s \<noteq> []"
    using assms(4) int_toString_not_empty str_includes_empty by blast
  moreover have "scan_codes s httpStatusCodes = Some (httpStatusCodes ! i)"
    using assms(3-5) by (subst scan_codes_Some) blast
  ultimately show ?thesis
    using assms(1,2,6) by (simp add: errorStatus_unfold)
qed

theorem errorStatus_string_first_listed_code_witness:
  "\<not> str_includes ''1500ms'' ''aborted'' \<and> \<not> str_includes ''1500ms'' ''timeout'' \<and>
   6 < length httpStatusCodes \<and> httpStatusCodes ! 6 = 500 \<and>
   str_includes ''1500ms'' (int_toString (httpStatusCodes ! 6)) \<and>
   filter (\<lambda>c. str_includes ''1500ms'' (int_toString c)) (take 6 httpStatusCodes) = [] \<and>
   echo_t (''errStatus.'' @ int_toString (httpStatusCodes ! 6)) = Inr ''errStatus.500'' \<and>
   errorStatus client_env (Some (Ref (Str ''1500ms''))) (Some echo_t) None None =
     ([CallT ''errStatus.500''], Inr ''errStatus.500'')"
proof -
  have a: "\<not> str_includes ''1500ms'' ''aborted''" by simp
  have b: "\<not> str_includes ''1500ms'' ''timeout''" by simp
  have c: "6 < length httpStatusCodes" by (simp add: httpStatusCodes_def)
  have n: "httpStatusCodes ! 6 = 500" by (simp add: httpStatusCodes_def)
  have d: "str_includes ''1500ms'' (int_toString (httpStatusCodes ! 6))"
    by (simp add: n int_toString_codes)
  have e: "\<forall>c \<in> set (take 6 httpStatusCodes). \<not> str_includes ''1500ms'' (int_toString c)"
    by (simp add: httpStatusCodes_def int_toString_codes)
  have g: "echo_t (''errStatus.'' @ int_toString (httpStatusCodes ! 6)) = Inr ''errStatus.500''"
    by (simp add: n int_toString_codes echo_t_def)
  have e': "filter (\<lambda>c. str_includes ''1500ms'' (int_toString c)) (take 6 httpStatusCodes) = []"
    using e by (simp only: filter_empty_conv)
  from errorStatus_string_first_listed_code [where s = "''1500ms''" and i = 6 and f = echo_t
      and r = "''errStatus.500''" and env = client_env and customError = None
      and options = None, OF a b c d e g] a b c n d e' g
  show ?thesis by (simp add: int_toString_codes)
qed

text \<open>
  Claim C4: for a string holding \<open>aborted\<close>, the result is the translation of
  \<open>errStatus.abortError\<close>, whatever digits the string has and whatever custom classifier
  was given.
\<close>

theorem errorStatus_string_aborted:
  assumes "str_includes s ''aborted''" and "f ''errStatus.abortError'' = Inr r"
  shows "errorStatus env (Some (Ref (Str s))) (Some f) customError options =
           ([CallT ''errStatus.abortError''], Inr r)"
proof -
  have "s \<noteq> []"
    using assms(1) str_includes_empty by blast
  then show ?thesis
    using assms by (simp add: errorStatus_unfold)
qed

theorem errorStatus_string_aborted_witness:
  "str_includes ''Request 500 aborted'' ''aborted'' \<and>
   echo_t ''errStatus.abortError'' = Inr ''errStatus.abortError'' \<and>
   errorStatus client_env (Some (Ref (Str ''Request 500 aborted''))) (Some echo_t)
       (Some constant_customError) None =
     ([CallT ''errStatus.abortError''], Inr ''errStatus.abortError'')"
proof -
  have a: "str_includes ''Request 500 aborted'' ''aborted''" by simp
  have b: "echo_t ''errStatus.abortError'' = Inr ''errStatus.abortError''"
    by (simp add: echo_t_def)
  from errorStatus_string_aborted [where s = "''Request 500 aborted''" and f = echo_t
      and r = "''errStatus.abortError''" and env = client_env
      and customError = "Some constant_customError" and options = None] a b
  show ?thesis by simp
qed

text \<open>
  Claim C5: for a string holding \<open>timeout\<close> and not \<open>aborted\<close>, the result is the
  translation of \<open>errStatus.408\<close>.
\<close>

theorem errorStatus_string_timeout:
  assumes "str_includes s ''timeout''" and "\<not> str_includes s ''aborted''"
    and "f ''errStatus.408'' = Inr r"
  shows "errorStatus env (Some (Ref (Str s))) (Some f) customError options =
           ([CallT ''errStatus.408''], Inr r)"
proof -
  have "s \<noteq> []"
    using assms(1) str_includes_empty by blast
  then show ?thesis
    using assms by (simp add: errorStatus_unfold)
qed

theorem errorStatus_string_timeout_witness:
  "str_includes ''timeout of 500ms exceeded'' ''timeout'' \<and>
   \<not> str_includes ''timeout of 500ms exceeded'' ''aborted'' \<and>
   echo_t ''errStatus.408'' = Inr ''errStatus.408'' \<and>
   errorStatus client_env (Some (Ref (Str ''timeout of 500ms exceeded''))) (Some echo_t)
       (Some constant_customError) None =
     ([CallT ''errStatus.408''], Inr ''errStatus.408'')"
proof -
  have a: "str_includes ''timeout of 500ms exceeded'' ''timeout''" by simp
  have b: "\<not> str_includes ''timeout of 500ms exceeded'' ''aborted''" by simp
  have c: "echo_t ''errStatus.408'' = Inr ''errStatus.408''"
    by (simp add: echo_t_def)
  from errorStatus_string_timeout [where s = "''timeout of 500ms exceeded''" and f = echo_t
      and r = "''errStatus.408''" and env = client_env
      and customError = "Some constant_customError" and options = None] a b c
  show ?thesis by simp
qed

lemma listed_codes:
  "code \<in> set httpStatusCodes \<longleftrightarrow>
     code \<in> {400, 401, 403, 404, 408, 429, 500, 502, 503, 504}"
  by (simp add: httpStatusCodes_def)

lemma listed_code_text:
  assumes "code \<in> set httpStatusCodes"
  shows "\<not> str_includes (int_toString code) ''aborted''"
    and "\<not> str_includes (int_toString code) ''timeout''"
  using assms by (auto simp: listed_codes int_toString_codes)

text \<open>
  Claim C6: for a number equal to one of the ten listed codes, the result is the
  translation of \<open>errStatus.<code>\<close> for that code.
\<close>

theorem errorStatus_listed_number_value:
  assumes "code \<in> {400, 401, 403, 404, 408, 429, 500, 502, 503, 504}"
    and "f (''errStatus.'' @ int_toString code) = Inr r"
  shows "errorStatus env (Some (Ref (Num (Integer code)))) (Some f) customError options =
           ([CallT (''errStatus.'' @ int_toString code)], Inr r)"
proof -
  have listed: "code \<in> set httpStatusCodes"
    using assms(1) by (simp only: listed_codes)
  have "code \<noteq> 0"
    using assms(1) by auto
  then show ?thesis
    using listed assms(2) listed_code_text [OF listed] by (simp add: errorStatus_unfold)
qed

theorem errorStatus_listed_number_value_witness:
  "(404::int) \<in> {400, 401, 403, 404, 408, 429, 500, 502, 503, 504} \<and>
   echo_t (''errStatus.'' @ int_toString 404) = Inr ''errStatus.404'' \<and>
   errorStatus client_env (Some (Ref (Num (Integer 404)))) (Some echo_t) None None =
     ([CallT ''errStatus.404''], Inr ''errStatus.404'')"
proof -
  have a: "(404::int) \<in> {400, 401, 403, 404, 408, 429, 500, 502, 503, 504}" by simp
  have b: "echo_t (''errStatus.'' @ int_toString 404) = Inr ''errStatus.404''"
    by (simp add: echo_t_def int_toString_codes)
  from errorStatus_listed_number_value [where code = 404 and f = echo_t and r = "''errStatus.404''"
      and env = client_env and customError = None and options = None] a b
  show ?thesis by (simp add: int_toString_codes)
qed

lemma classify_no_rule:
  assumes "truthy v"
    and "\<not> str_includes (errorMessage_of v) ''aborted''"
    and "\<not> str_includes (errorMessage_of v) ''timeout''"
    and "\<forall>code \<in> set httpStatusCodes. \<not> str_includes (errorMessage_of v) (int_toString code)"
  shows "classify t customError v =
           (case customError of
              None \<Rightarrow> call_t t ''errStatus.defaultStatusError''
            | Some c \<Rightarrow>
                (case c v of
                   Inl e \<Rightarrow> ([CallCustom v], Inl e)
                 | Inr None \<Rightarrow> after [CallCustom v] (call_t t ''errStatus.defaultStatusError'')
                 | Inr (Some customMessage) \<Rightarrow>
                     if customMessage \<noteq> [] then ([CallCustom v], Inr customMessage)
                     else after [CallCustom v] (call_t t ''errStatus.defaultStatusError'')))"
proof -
  have "\<not> is_listed_number v"
    using assms(4) is_listed_number_includes by blast
  moreover have "scan_codes (errorMessage_of v) httpStatusCodes = None"
    using assms(4) by (simp add: scan_codes_None)
  ultimately show ?thesis
    using assms(1-3) by (simp add: classify_def)
qed

text \<open>
  Claim C7: for a truthy value that no text rule and no code rule matches, a custom
  classifier that returns a non-empty string gives that string, with no call of the
  translate function; with no custom classifier, or one that returns nothing or the
  empty string, the result is the translation of \<open>errStatus.defaultStatusError\<close>.
\<close>

theorem errorStatus_custom_or_default:
  assumes "truthy v"
    and "\<not> str_includes (errorMessage_of v) ''aborted''"
    and "\<not> str_includes (errorMessage_of v) ''timeout''"
    and "\<forall>code \<in> set httpStatusCodes. \<not> str_includes (errorMessage_of v) (int_toString code)"
  shows "(customError = Some c \<and> c v = Inr (Some m) \<and> m \<noteq> [] \<longrightarrow>
            errorStatus env (Some (Ref v)) (Some f) customError options =
              ([CallCustom v], Inr m)) \<and>
         ((customError = None \<or>
            (customError = Some c \<and> (c v = Inr None \<or> c v = Inr (Some []))))
          \<and> f ''errStatus.defaultStatusError'' = Inr d \<longrightarrow>
            snd (errorStatus env (Some (Ref v)) (Some f) customError options) = Inr d)"
  by (auto simp: errorStatus_def try_block_def classify_no_rule [OF assms] call_t_def after_def)

theorem errorStatus_custom_or_default_witness:
  "truthy (Err ''Custom weirdness'') \<and>
   \<not> str_includes (errorMessage_of (Err ''Custom weirdness'')) ''aborted'' \<and>
   \<not> str_includes (errorMessage_of (Err ''Custom weirdness'')) ''timeout'' \<and>
   filter (\<lambda>code. str_includes (errorMessage_of (Err ''Custom weirdness'')) (int_toString code))
     httpStatusCodes = [] \<and>
   readme_customError (Err ''Custom weirdness'') = Inr (Some ''This is a custom error'') \<and>
   errorStatus client_env (Some (Ref (Err ''Custom weirdness''))) (Some failing_t)
       (Some readme_customError) None =
     ([CallCustom (Err ''Custom weirdness'')], Inr ''This is a custom error'') \<and>
   truthy (Err ''Plain weirdness'') \<and>
   \<not> str_includes (errorMessage_of (Err ''Plain weirdness'')) ''aborted'' \<and>
   \<not> str_includes (errorMessage_of (Err ''Plain weirdness'')) ''timeout'' \<and>
   filter (\<lambda>code. str_includes (errorMessage_of (Err ''Plain weirdness'')) (int_toString code))
     httpStatusCodes = [] \<and>
   readme_customError (Err ''Plain weirdness'') = Inr None \<and>
   echo_t ''errStatus.defaultStatusError'' = Inr ''errStatus.defaultStatusError'' \<and>
   snd (errorStatus client_env (Some (Ref (Err ''Plain weirdness''))) (Some echo_t)
       (Some readme_customError) None) = Inr ''errStatus.defaultStatusError'' \<and>
   snd (errorStatus client_env (Some (Ref (Err ''Plain weirdness''))) (Some echo_t)
       None None) = Inr ''errStatus.defaultStatusError''"
proof -
  have a1: "truthy (Err ''Custom weirdness'')" by simp
  have a2: "\<not> str_includes (errorMessage_of (Err ''Custom weirdness'')) ''aborted''" by simp
  have a3: "\<not> str_includes (errorMessage_of (Err ''Custom weirdness'')) ''timeout''" by simp
  have a4: "\<forall>code \<in> set httpStatusCodes.
      \<not> str_includes (errorMessage_of (Err ''Custom weirdness'')) (int_toString code)"
    by (simp add: httpStatusCodes_def int_toString_codes)
  have a5: "readme_customError (Err ''Custom weirdness'') = Inr (Some ''This is a custom error'')"
    by (simp add: readme_customError_def)
  have b1: "truthy (Err ''Plain weirdness'')" by simp
  have b2: "\<not> str_includes (errorMessage_of (Err ''Plain weirdness'')) ''aborted''" by simp
  have b3: "\<not> str_includes (errorMessage_of (Err ''Plain weirdness'')) ''timeout''" by simp
  have b4: "\<forall>code \<in> set httpStatusCodes.
      \<not> str_includes (errorMessage_of (Err ''Plain weirdness'')) (int_toString code)"
    by (simp add: httpStatusCodes_def int_toString_codes)
  have b5: "readme_customError (Err ''Plain weirdness'') = Inr None"
    by (simp add: readme_customError_def)
  have b6: "echo_t ''errStatus.defaultStatusError'' = Inr ''errStatus.defaultStatusError''"
    by (simp add: echo_t_def)
  note first = errorStatus_custom_or_default [where v = "Err ''Custom weirdness''" and customError = "Some readme_customError"
      and c = readme_customError and m = "''This is a custom error''" and f = failing_t
      and env = client_env and options = None, OF a1 a2 a3 a4]
  note second = errorStatus_custom_or_default [where v = "Err ''Plain weirdness''" and customError = "Some readme_customError"
      and c = readme_customError and f = echo_t and d = "''errStatus.defaultStatusError''"
      and env = client_env and options = None, OF b1 b2 b3 b4]
  note third = errorStatus_custom_or_default [where v = "Err ''Plain weirdness''" and customError = None
      and c = readme_customError and f = echo_t and d = "''errStatus.defaultStatusError''"
      and env = client_env and options = None, OF b1 b2 b3 b4]
  have a4': "filter (\<lambda>code. str_includes (errorMessage_of (Err ''Custom weirdness''))
      (int_toString code)) httpStatusCodes = []"
    using a4 by (simp only: filter_empty_conv)
  have b4': "filter (\<lambda>code. str_includes (errorMessage_of (Err ''Plain weirdness''))
      (int_toString code)) httpStatusCodes = []"
    using b4 by (simp only: filter_empty_conv)
  from first second third a1 a2 a3 a4' a5 b1 b2 b3 b4' b5 b6
  show ?thesis by simp
qed

text \<open>
  Claim C8: when the held value is \<^verbatim>\<open>null\<close> or \<^verbatim>\<open>undefined\<close>, the result is the
  translation of \<open>errStatus.defaultStatusError\<close>, the only key looked up: there is no
  message of its own for the absence of an error.
\<close>

theorem errorStatus_null_is_default:
  assumes "v = Null \<or> v = Undefined"
    and "f ''errStatus.defaultStatusError'' = Inr d"
  shows "errorStatus env (Some (Ref v)) (Some f) customError options =
           ([CallT ''errStatus.defaultStatusError''], Inr d)"
  using assms by (auto simp: errorStatus_unfold)

theorem errorStatus_null_is_default_witness:
  "echo_t ''errStatus.defaultStatusError'' = Inr ''errStatus.defaultStatusError'' \<and>
   errorStatus client_env (Some (Ref Null)) (Some echo_t) None None =
     ([CallT ''errStatus.defaultStatusError''], Inr ''errStatus.defaultStatusError'')"
proof -
  have b: "echo_t ''errStatus.defaultStatusError'' = Inr ''errStatus.defaultStatusError''"
    by (simp add: echo_t_def)
  from errorStatus_null_is_default [where v = Null and f = echo_t and d = "''errStatus.defaultStatusError''"
      and env = client_env and customError = None and options = None] b
  show ?thesis by simp
qed

text \<open>
  Claim C9: the logging gate is false without options and whenever \<open>debug\<close> is not
  true; true when \<open>debug\<close> is true and \<open>serverOnly\<close> is not; equal to the server probe
  when both are true; and it depends on the surroundings through that probe only.
\<close>

theorem logOption_gate:
  "logOption env None = False \<and>
   (debug opts \<noteq> Some True \<longrightarrow> logOption env (Some opts) = False) \<and>
   (debug opts = Some True \<and> serverOnly opts \<noteq> Some True \<longrightarrow> logOption env (Some opts) = True) \<and>
   (debug opts = Some True \<and> serverOnly opts = Some True \<longrightarrow>
      logOption env (Some opts) = isServer env) \<and>
   (isServer env = isServer env' \<longrightarrow> logOption env options = logOption env' options)"
proof -
  have gate: "logOption env None = False \<and>
    (debug opts \<noteq> Some True \<longrightarrow> logOption env (Some opts) = False) \<and>
    (debug opts = Some True \<and> serverOnly opts \<noteq> Some True \<longrightarrow>
       logOption env (Some opts) = True) \<and>
    (debug opts = Some True \<and> serverOnly opts = Some True \<longrightarrow>
       logOption env (Some opts) = isServer env)"
    by (simp add: logOption_def)
  have probe: "isServer env = isServer env' \<longrightarrow>
    logOption env options = logOption env' options"
    unfolding logOption_def by (cases options) simp_all
  from gate probe show ?thesis by blast
qed

theorem logOption_gate_witness:
  "logOption client_env None = False \<and>
   logOption server_env (Some \<lparr>debug = None, serverOnly = Some True\<rparr>) = False \<and>
   logOption client_env (Some \<lparr>debug = Some True, serverOnly = None\<rparr>) = True \<and>
   isServer server_env \<and>
   logOption server_env (Some \<lparr>debug = Some True, serverOnly = Some True\<rparr>) = True \<and>
   \<not> isServer client_env \<and>
   logOption client_env (Some \<lparr>debug = Some True, serverOnly = Some True\<rparr>) = False \<and>
   isServer server_env = isServer \<lparr>process = None, window_defined = False\<rparr> \<and>
   logOption server_env (Some \<lparr>debug = Some True, serverOnly = Some True\<rparr>) =
     logOption \<lparr>process = None, window_defined = False\<rparr>
       (Some \<lparr>debug = Some True, serverOnly = Some True\<rparr>)"
proof -
  have s: "isServer server_env" by (simp add: isServer_def server_env_def)
  have c: "\<not> isServer client_env" by (simp add: isServer_def client_env_def)
  note unset = logOption_gate [where env = client_env and env' = client_env and options = None
      and opts = "\<lparr>debug = Some True, serverOnly = None\<rparr>"]
  note off = logOption_gate [where env = server_env and env' = server_env and options = None
      and opts = "\<lparr>debug = None, serverOnly = Some True\<rparr>"]
  have p: "isServer server_env = isServer \<lparr>process = None, window_defined = False\<rparr>"
    by (simp add: isServer_def server_env_def)
  note on_server = logOption_gate [where env = server_env
      and env' = "\<lparr>process = None, window_defined = False\<rparr>"
      and options = "Some \<lparr>debug = Some True, serverOnly = Some True\<rparr>"
      and opts = "\<lparr>debug = Some True, serverOnly = Some True\<rparr>"]
  note on_client = logOption_gate [where env = client_env and env' = client_env and options = None
      and opts = "\<lparr>debug = Some True, serverOnly = Some True\<rparr>"]
  from unset off on_server on_client s c p
  show ?thesis by auto
qed

text \<open>
  Claim C10: for every falsy value (\<^verbatim>\<open>null\<close>, \<^verbatim>\<open>undefined\<close>, \<open>0\<close>, \<open>NaN\<close>, the empty
  string) the custom classifier is never called, and the result is the translation of
  \<open>errStatus.defaultStatusError\<close>, whatever the custom classifier would have returned.
\<close>

theorem errorStatus_falsy_skips_custom:
  assumes "v \<in> {Null, Undefined, Num (Integer 0), Num NaN, Str []}"
  shows "(\<forall>w. CallCustom w \<notin> set (fst (errorStatus env (Some (Ref v)) (Some f) customError options))) \<and>
         (f ''errStatus.defaultStatusError'' = Inr d \<longrightarrow>
            errorStatus env (Some (Ref v)) (Some f) customError options =
              ([CallT ''errStatus.defaultStatusError''], Inr d))"
proof -
  have "\<not> truthy v"
    using assms by (auto simp: falsy_iff)
  then show ?thesis
    by (cases "f ''errStatus.defaultStatusError''") (simp_all add: errorStatus_unfold)
qed

theorem errorStatus_falsy_skips_custom_witness:
  "Num (Integer 0) \<in> {Null, Undefined, Num (Integer 0), Num NaN, Str []} \<and>
   constant_customError (Num (Integer 0)) = Inr (Some ''custom message'') \<and>
   echo_t ''errStatus.defaultStatusError'' = Inr ''errStatus.defaultStatusError'' \<and>
   errorStatus client_env (Some (Ref (Num (Integer 0)))) (Some echo_t)
       (Some constant_customError) None =
     ([CallT ''errStatus.defaultStatusError''], Inr ''errStatus.defaultStatusError'') \<and>
   Str [] \<in> {Null, Undefined, Num (Integer 0), Num NaN, Str []} \<and>
   constant_customError (Str []) = Inr (Some ''custom message'') \<and>
   errorStatus client_env (Some (Ref (Str []))) (Some echo_t)
       (Some constant_customError) None =
     ([CallT ''errStatus.defaultStatusError''], Inr ''errStatus.defaultStatusError'')"
proof -
  have a: "Num (Integer 0) \<in> {Null, Undefined, Num (Integer 0), Num NaN, Str []}" by simp
  have a': "Str [] \<in> {Null, Undefined, Num (Integer 0), Num NaN, Str []}" by simp
  have b: "echo_t ''errStatus.defaultStatusError'' = Inr ''errStatus.defaultStatusError''"
    by (simp add: echo_t_def)
  have c: "constant_customError (Num (Integer 0)) = Inr (Some ''custom message'')"
    "constant_customError (Str []) = Inr (Some ''custom message'')"
    by (simp_all add: constant_customError_def)
  from errorStatus_falsy_skips_custom [where v = "Num (Integer 0)" and f = echo_t and d = "''errStatus.defaultStatusError''"
      and env = client_env and customError = "Some constant_customError" and options = None, OF a]
    errorStatus_falsy_skips_custom [where v = "Str []" and f = echo_t and d = "''errStatus.defaultStatusError''"
      and env = client_env and customError = "Some constant_customError" and options = None, OF a']
    b c
  show ?thesis by simp
qed

end
